theory Spec2Isabelle
  imports Main "HOL-Library.Word"
begin

section \<open>The PodSet controller (controllers/podset\_controller.go)\<close>

text \<open>
  A shallow embedding of \<^verbatim>\<open>PodSetReconciler.Reconcile\<close> and \<^verbatim>\<open>newPodForCR\<close>.
  The cluster is reached only through the embedded \<^verbatim>\<open>client.Client\<close>; its five operations
  are the fields of a record of functions over an abstract store state, so that every
  answer of the store, failures included, is an input of the model.  Each pass returns its
  Go result, the list of client calls it made, in order, and the store state it left.
\<close>

subsection \<open>Kubernetes objects\<close>

type_synonym int32 = "32 word"

text \<open>\<^verbatim>\<open>corev1.PodPhase\<close> is a string type; these are its five declared constants.\<close>

type_synonym PodPhase = string

definition PodPending :: PodPhase where "PodPending = ''Pending''"
definition PodRunning :: PodPhase where "PodRunning = ''Running''"
definition PodSucceeded :: PodPhase where "PodSucceeded = ''Succeeded''"
definition PodFailed :: PodPhase where "PodFailed = ''Failed''"
definition PodUnknown :: PodPhase where "PodUnknown = ''Unknown''"

record NamespacedName =
  Namespace :: string
  Name :: string

text \<open>
  \<^verbatim>\<open>client.ListOptions\<close>.  The selector is kept as the label set it was built from by
  \<^verbatim>\<open>labels.SelectorFromSet\<close>.
\<close>

record ListOptions =
  Namespace :: string
  LabelSelector :: "string \<rightharpoonup> string"

record Container =
  Name :: string
  Image :: string
  Command :: "string list"

record PodSpec =
  Containers :: "Container list"

record PodStatus =
  Phase :: PodPhase

text \<open>
  \<^verbatim>\<open>metav1.ObjectMeta\<close> is embedded in both \<^verbatim>\<open>Pod\<close> and \<^verbatim>\<open>PodSet\<close>, so \<open>Name p\<close> reads
  the promoted field of either.  A nil \<^verbatim>\<open>DeletionTimestamp\<close> is \<open>None\<close>.
\<close>

record ObjectMeta =
  Name :: string
  GenerateName :: string
  Namespace :: string
  Labels :: "string \<rightharpoonup> string"
  DeletionTimestamp :: "nat option"

record Pod = ObjectMeta +
  Spec :: PodSpec
  Status :: PodStatus

record PodSetSpec =
  Replicas :: int32

text \<open>
  \<^verbatim>\<open>PodNames\<close> is a Go slice: \<open>None\<close> is the nil slice and \<open>Some []\<close> the empty one, which
  \<^verbatim>\<open>reflect.DeepEqual\<close> tells apart.
\<close>

record PodSetStatus =
  PodNames :: "string list option"
  AvailableReplicas :: int32

record PodSet = ObjectMeta +
  Spec :: PodSetSpec
  Status :: PodSetStatus

subsection \<open>Errors, results and the client\<close>

text \<open>An API error with its status reason; \<^verbatim>\<open>errors.IsNotFound\<close> tests the reason.\<close>

datatype error = StatusError string

fun IsNotFound :: "error \<Rightarrow> bool" where
  "IsNotFound (StatusError reason) = (reason = ''NotFound'')"

text \<open>\<^verbatim>\<open>ctrl.Result\<close>; its \<^verbatim>\<open>RequeueAfter\<close> is never set by this controller.\<close>

record Result =
  Requeue :: bool

text \<open>
  What a call of \<^verbatim>\<open>Reconcile\<close> does: it returns \<^verbatim>\<open>(ctrl.Result, error)\<close>, a nil error
  being \<open>None\<close>, or it panics.
\<close>

datatype Outcome = Return Result "error option" | Panic

datatype Call =
    CallGet NamespacedName
  | CallList ListOptions
  | CallStatusUpdate PodSet
  | CallDelete Pod
  | CallCreate Pod

text \<open>
  \<^verbatim>\<open>PodSetReconciler\<close>: the embedded client over a store state \<open>'s\<close>, and
  \<^verbatim>\<open>controllerutil.SetControllerReference\<close> with the reconciler's scheme applied.  The two
  reads answer from the state; the three writes return a nil or non-nil error and the next
  state.
\<close>

record 's PodSetReconciler =
  Get :: "NamespacedName \<Rightarrow> 's \<Rightarrow> error + PodSet"
  List :: "ListOptions \<Rightarrow> 's \<Rightarrow> error + Pod list"
  StatusUpdate :: "PodSet \<Rightarrow> 's \<Rightarrow> error option \<times> 's"
  Delete :: "Pod \<Rightarrow> 's \<Rightarrow> error option \<times> 's"
  Create :: "Pod \<Rightarrow> 's \<Rightarrow> error option \<times> 's"
  SetControllerReference :: "PodSet \<Rightarrow> Pod \<Rightarrow> error + Pod"

subsection \<open>newPodForCR\<close>

definition newPodForCR :: "PodSet \<Rightarrow> Pod" where
  "newPodForCR cr =
     (let podSetLabels = [''app'' \<mapsto> Name cr, ''version'' \<mapsto> ''v0.1'']
      in \<lparr>Name = [], GenerateName = Name cr @ ''-pod'', Namespace = Namespace cr,
          Labels = podSetLabels, DeletionTimestamp = None,
          Pod.Spec = \<lparr>Containers =
            [\<lparr>Container.Name = ''busybox'', Image = ''busybox'',
              Command = [''sleep'', ''3600'']\<rparr>]\<rparr>,
          Pod.Status = \<lparr>Phase = []\<rparr>\<rparr>)"

subsection \<open>Reconcile\<close>

text \<open>
  Lines 84 to 93: the pods that count as available, appended in the order of the listing.
\<close>

fun available_loop :: "Pod list \<Rightarrow> Pod list \<Rightarrow> Pod list" where
  "available_loop available [] = available"
| "available_loop available (pod # items) =
     (if DeletionTimestamp pod \<noteq> None then available_loop available items
      else if Phase (Pod.Status pod) = PodRunning \<or> Phase (Pod.Status pod) = PodPending
        then available_loop (available @ [pod]) items
      else available_loop available items)"

text \<open>Lines 95 to 98: their names.\<close>

fun availableNames_loop :: "string list \<Rightarrow> Pod list \<Rightarrow> string list" where
  "availableNames_loop availableNames [] = availableNames"
| "availableNames_loop availableNames (pod # available) =
     availableNames_loop (availableNames @ [Name pod]) available"

text \<open>
  Lines 84 to 104, from the listed items to the status value: \<^verbatim>\<open>numAvailable\<close> is
  \<^verbatim>\<open>int32(len(available))\<close>, a conversion that keeps the low 32 bits.
\<close>

definition status_of :: "Pod list \<Rightarrow> PodSetStatus" where
  "status_of items =
     (let available = available_loop [] items;
          numAvailable = (word_of_nat (length available) :: int32);
          availableNames = availableNames_loop [] available
      in \<lparr>PodNames = Some availableNames, AvailableReplicas = numAvailable\<rparr>)"

text \<open>
  The slice expression \<^verbatim>\<open>available[:diff]\<close>.  Go checks the bound against the capacity, not
  the length: the expression panics when \<open>diff\<close> is negative or above the capacity, and
  otherwise also yields the elements between length and capacity, which are zero values in
  a slice that only \<^verbatim>\<open>append\<close> has built.  The capacity that \<^verbatim>\<open>append\<close> leaves is the
  runtime's choice: a nil slice has capacity 0, and a slice of \<open>n > 0\<close> appended elements
  has capacity \<open>n + slack n\<close>, with \<open>slack\<close> a parameter of the model.
\<close>

definition zeroPod :: Pod where
  "zeroPod = \<lparr>Name = [], GenerateName = [], Namespace = [], Labels = Map.empty,
     DeletionTimestamp = None, Pod.Spec = \<lparr>Containers = []\<rparr>,
     Pod.Status = \<lparr>Phase = []\<rparr>\<rparr>"

definition cap_of :: "(nat \<Rightarrow> nat) \<Rightarrow> Pod list \<Rightarrow> nat" where
  "cap_of slack available =
     (if available = [] then 0 else length available + slack (length available))"

definition slice_to :: "(nat \<Rightarrow> nat) \<Rightarrow> Pod list \<Rightarrow> int \<Rightarrow> Pod list option" where
  "slice_to slack available diff =
     (if diff < 0 \<or> int (cap_of slack available) < diff then None
      else Some (take (nat diff)
             (available @ replicate (cap_of slack available - length available) zeroPod)))"

text \<open>
  Lines 118 to 126: the loop over \<^verbatim>\<open>dpods\<close>.  \<open>None\<close> is the loop running off its end; both
  paths of the body return, so the pods after the first are never reached.
\<close>

fun delete_loop ::
  "'s PodSetReconciler \<Rightarrow> Pod list \<Rightarrow> 's \<Rightarrow> (Outcome \<times> Call list \<times> 's) option" where
  "delete_loop r [] s = None"
| "delete_loop r (dpod # dpods) s =
     (case Delete r dpod s of
        (Some err, s') \<Rightarrow> Some (Return \<lparr>Requeue = False\<rparr> (Some err), [CallDelete dpod], s')
      | (None, s') \<Rightarrow> Some (Return \<lparr>Requeue = True\<rparr> None, [CallDelete dpod], s'))"

text \<open>Lines 128 to 144: scaling up by one pod, or nothing to do.\<close>

definition scale_up ::
  "'s PodSetReconciler \<Rightarrow> PodSet \<Rightarrow> int32 \<Rightarrow> 's \<Rightarrow> Outcome \<times> Call list \<times> 's" where
  "scale_up r podSet numAvailable s =
     (if numAvailable <s Replicas (PodSet.Spec podSet) then
        (let pod = newPodForCR podSet
         in case SetControllerReference r podSet pod of
              Inl err \<Rightarrow> (Return \<lparr>Requeue = False\<rparr> (Some err), [], s)
            | Inr pod' \<Rightarrow>
                (case Create r pod' s of
                   (Some err, s') \<Rightarrow>
                     (Return \<lparr>Requeue = False\<rparr> (Some err), [CallCreate pod'], s')
                 | (None, s') \<Rightarrow> (Return \<lparr>Requeue = True\<rparr> None, [CallCreate pod'], s')))
      else (Return \<lparr>Requeue = False\<rparr> None, [], s))"

text \<open>Lines 114 to 144: the comparison with \<^verbatim>\<open>podSet.Spec.Replicas\<close> and the action.\<close>

definition scale ::
  "(nat \<Rightarrow> nat) \<Rightarrow> 's PodSetReconciler \<Rightarrow> PodSet \<Rightarrow> Pod list \<Rightarrow> 's
     \<Rightarrow> Outcome \<times> Call list \<times> 's" where
  "scale slack r podSet available s =
     (let numAvailable = (word_of_nat (length available) :: int32)
      in if Replicas (PodSet.Spec podSet) <s numAvailable then
           (let diff = numAvailable - Replicas (PodSet.Spec podSet)
            in case slice_to slack available (sint diff) of
                 None \<Rightarrow> (Panic, [], s)
               | Some dpods \<Rightarrow>
                   (case delete_loop r dpods s of
                      Some returned \<Rightarrow> returned
                    | None \<Rightarrow> scale_up r podSet numAvailable s))
         else scale_up r podSet numAvailable s)"

text \<open>
  Lines 100 to 112 and on: the status is written only when it differs from the one
  fetched, and a failed write ends the pass.
\<close>

definition update_and_scale ::
  "(nat \<Rightarrow> nat) \<Rightarrow> 's PodSetReconciler \<Rightarrow> PodSet \<Rightarrow> Pod list \<Rightarrow> 's
     \<Rightarrow> Outcome \<times> Call list \<times> 's" where
  "update_and_scale slack r podSet items s =
     (let available = available_loop [] items;
          status = status_of items
      in if PodSet.Status podSet \<noteq> status then
           (let podSet' = podSet\<lparr>PodSet.Status := status\<rparr>
            in case StatusUpdate r podSet' s of
                 (Some err, s') \<Rightarrow>
                   (Return \<lparr>Requeue = False\<rparr> (Some err), [CallStatusUpdate podSet'], s')
               | (None, s') \<Rightarrow>
                   (case scale slack r podSet' available s' of
                      (out, calls, s'') \<Rightarrow> (out, CallStatusUpdate podSet' # calls, s'')))
         else scale slack r podSet available s)"

text \<open>Lines 73 to 79: the namespace and the label selector of the listing.\<close>

definition listOpts_of :: "PodSet \<Rightarrow> ListOptions" where
  "listOpts_of podSet =
     (let podSetLabels = [''app'' \<mapsto> Name podSet, ''version'' \<mapsto> ''v0.1'']
      in \<lparr>ListOptions.Namespace = Namespace podSet, LabelSelector = podSetLabels\<rparr>)"

text \<open>Lines 55 to 145.\<close>

definition Reconcile ::
  "(nat \<Rightarrow> nat) \<Rightarrow> 's PodSetReconciler \<Rightarrow> NamespacedName \<Rightarrow> 's
     \<Rightarrow> Outcome \<times> Call list \<times> 's" where
  "Reconcile slack r req s =
     (case Get r req s of
        Inl err \<Rightarrow>
          (if IsNotFound err then (Return \<lparr>Requeue = False\<rparr> None, [CallGet req], s)
           else (Return \<lparr>Requeue = False\<rparr> (Some err), [CallGet req], s))
      | Inr podSet \<Rightarrow>
          (let listOpts = listOpts_of podSet
           in case List r listOpts s of
                Inl err \<Rightarrow>
                  (Return \<lparr>Requeue = False\<rparr> (Some err), [CallGet req, CallList listOpts], s)
              | Inr items \<Rightarrow>
                  (case update_and_scale slack r podSet items s of
                     (out, calls, s') \<Rightarrow>
                       (out, CallGet req # CallList listOpts # calls, s'))))"

text \<open>
  Repeated passes for one key with nothing else touching the store: the state after \<open>n\<close>
  passes.
\<close>

fun state_after ::
  "nat \<Rightarrow> (nat \<Rightarrow> nat) \<Rightarrow> 's PodSetReconciler \<Rightarrow> NamespacedName \<Rightarrow> 's \<Rightarrow> 's" where
  "state_after 0 slack r req s = s"
| "state_after (Suc n) slack r req s =
     state_after n slack r req (snd (snd (Reconcile slack r req s)))"

subsection \<open>Reading a pass\<close>

text \<open>
  The pods a status counts, in the words of the specification: no deletion marker, and
  phase Pending or Running.
\<close>

definition spec_available :: "Pod \<Rightarrow> bool" where
  "spec_available pod \<longleftrightarrow>
     DeletionTimestamp pod = None
     \<and> (Phase (Pod.Status pod) = PodPending \<or> Phase (Pod.Status pod) = PodRunning)"

text \<open>The pods a call list creates and deletes, and its reads.\<close>

fun created :: "Call list \<Rightarrow> Pod list" where
  "created [] = []"
| "created (CallCreate pod # calls) = pod # created calls"
| "created (_ # calls) = created calls"

fun deleted :: "Call list \<Rightarrow> Pod list" where
  "deleted [] = []"
| "deleted (CallDelete pod # calls) = pod # deleted calls"
| "deleted (_ # calls) = deleted calls"

fun status_written :: "Call list \<Rightarrow> PodSet list" where
  "status_written [] = []"
| "status_written (CallStatusUpdate podSet # calls) = podSet # status_written calls"
| "status_written (_ # calls) = status_written calls"

fun is_read :: "Call \<Rightarrow> bool" where
  "is_read (CallGet _) = True"
| "is_read (CallList _) = True"
| "is_read _ = False"

subsection \<open>The store\<close>

text \<open>
  What the controller relies on from the API server, as far as the claims on the persisted
  status need it: a successful status write of a fetched PodSet is what the next fetch of
  that key returns and leaves every listing as it was, and creating or deleting a pod does
  not change what a fetch of a PodSet returns.
\<close>

definition store_laws :: "'s PodSetReconciler \<Rightarrow> bool" where
  "store_laws r \<longleftrightarrow>
     (\<forall>key p x t t'. Get r key t = Inr p
          \<longrightarrow> StatusUpdate r (p\<lparr>PodSet.Status := x\<rparr>) t = (None, t')
          \<longrightarrow> Get r key t' = Inr (p\<lparr>PodSet.Status := x\<rparr>)
              \<and> (\<forall>opts. List r opts t' = List r opts t))
     \<and> (\<forall>key pod t e t'. Create r pod t = (e, t') \<longrightarrow> Get r key t' = Get r key t)
     \<and> (\<forall>key pod t e t'. Delete r pod t = (e, t') \<longrightarrow> Get r key t' = Get r key t)"

text \<open>
  \<^verbatim>\<open>labels.SelectorFromSet(set).Matches(ls)\<close> of the Kubernetes library: every pair of the
  set is a label of \<open>ls\<close>.
\<close>

definition Matches :: "(string \<rightharpoonup> string) \<Rightarrow> (string \<rightharpoonup> string) \<Rightarrow> bool" where
  "Matches selector ls \<longleftrightarrow> selector \<subseteq>\<^sub>m ls"

text \<open>
  A reference store to run passes on: PodSets and pods in lists, found by namespace and
  name.  A created pod gets a name from its \<^verbatim>\<open>GenerateName\<close> and starts Pending; a deleted
  pod is removed.
\<close>

definition objectKey :: "'a ObjectMeta_scheme \<Rightarrow> NamespacedName" where
  "objectKey obj =
     \<lparr>NamespacedName.Namespace = Namespace obj, NamespacedName.Name = Name obj\<rparr>"

record Store =
  podsets :: "PodSet list"
  pods :: "Pod list"

definition store_Get :: "NamespacedName \<Rightarrow> Store \<Rightarrow> error + PodSet" where
  "store_Get key st =
     (case find (\<lambda>p. objectKey p = key) (podsets st) of
        None \<Rightarrow> Inl (StatusError ''NotFound'')
      | Some p \<Rightarrow> Inr p)"

definition store_List :: "ListOptions \<Rightarrow> Store \<Rightarrow> error + Pod list" where
  "store_List opts st =
     Inr (filter (\<lambda>pod. Namespace pod = ListOptions.Namespace opts
                     \<and> Matches (LabelSelector opts) (Labels pod)) (pods st))"

definition store_StatusUpdate :: "PodSet \<Rightarrow> Store \<Rightarrow> error option \<times> Store" where
  "store_StatusUpdate obj st =
     (if find (\<lambda>p. objectKey p = objectKey obj) (podsets st) = None
      then (Some (StatusError ''NotFound''), st)
      else (None, st\<lparr>podsets :=
              map (\<lambda>p. if objectKey p = objectKey obj
                        then p\<lparr>PodSet.Status := PodSet.Status obj\<rparr> else p) (podsets st)\<rparr>))"

definition store_Delete :: "Pod \<Rightarrow> Store \<Rightarrow> error option \<times> Store" where
  "store_Delete obj st =
     (if find (\<lambda>p. objectKey p = objectKey obj) (pods st) = None
      then (Some (StatusError ''NotFound''), st)
      else (None, st\<lparr>pods := filter (\<lambda>p. objectKey p \<noteq> objectKey obj) (pods st)\<rparr>))"

definition store_Create :: "Pod \<Rightarrow> Store \<Rightarrow> error option \<times> Store" where
  "store_Create obj st =
     (None, st\<lparr>pods := pods st @
        [obj\<lparr>Name := GenerateName obj @ replicate (length (pods st)) CHR ''x'',
             Pod.Status := \<lparr>Phase = PodPending\<rparr>\<rparr>]\<rparr>)"

definition store_reconciler :: "Store PodSetReconciler" where
  "store_reconciler =
     \<lparr>Get = store_Get, List = store_List, StatusUpdate = store_StatusUpdate,
      Delete = store_Delete, Create = store_Create,
      SetControllerReference = (\<lambda>owner pod. Inr pod)\<rparr>"

text \<open>The same store behind a client whose status writes, or whose creations, fail.\<close>

definition conflict_reconciler :: "Store PodSetReconciler" where
  "conflict_reconciler =
     store_reconciler\<lparr>StatusUpdate := (\<lambda>obj st. (Some (StatusError ''Conflict''), st))\<rparr>"

definition forbidden_reconciler :: "Store PodSetReconciler" where
  "forbidden_reconciler =
     store_reconciler\<lparr>Create := (\<lambda>obj st. (Some (StatusError ''Forbidden''), st))\<rparr>"

text \<open>The same store behind a reconciler whose scheme does not know the owner's kind.\<close>

definition unregistered_reconciler :: "Store PodSetReconciler" where
  "unregistered_reconciler =
     store_reconciler\<lparr>SetControllerReference :=
        (\<lambda>owner pod. Inl (StatusError ''NotRegistered''))\<rparr>"

text \<open>
  Concrete objects: the PodSet \<open>web\<close> in namespace \<open>default\<close>, and pods carrying its two
  labels.
\<close>

definition example_pod :: "string \<Rightarrow> PodPhase \<Rightarrow> nat option \<Rightarrow> Pod" where
  "example_pod name phase deletion =
     \<lparr>Name = name, GenerateName = ''web-pod'', Namespace = ''default'',
      Labels = [''app'' \<mapsto> ''web'', ''version'' \<mapsto> ''v0.1''], DeletionTimestamp = deletion,
      Pod.Spec = \<lparr>Containers = []\<rparr>, Pod.Status = \<lparr>Phase = phase\<rparr>\<rparr>"

definition example_podset :: "int32 \<Rightarrow> PodSetStatus \<Rightarrow> PodSet" where
  "example_podset replicas status =
     \<lparr>Name = ''web'', GenerateName = [], Namespace = ''default'', Labels = Map.empty,
      DeletionTimestamp = None, PodSet.Spec = \<lparr>Replicas = replicas\<rparr>,
      PodSet.Status = status\<rparr>"

definition web_key :: NamespacedName where
  "web_key = \<lparr>NamespacedName.Namespace = ''default'', NamespacedName.Name = ''web''\<rparr>"

definition web_listOpts :: ListOptions where
  "web_listOpts = \<lparr>ListOptions.Namespace = ''default'',
     LabelSelector = [''app'' \<mapsto> ''web'', ''version'' \<mapsto> ''v0.1'']\<rparr>"

definition five_pods :: "Pod list" where
  "five_pods =
     [example_pod ''p1'' PodRunning None, example_pod ''p2'' PodRunning None,
      example_pod ''p3'' PodPending None, example_pod ''p4'' PodRunning None,
      example_pod ''p5'' PodRunning None]"

definition five_status :: PodSetStatus where
  "five_status =
     \<lparr>PodNames = Some [''p1'', ''p2'', ''p3'', ''p4'', ''p5''], AvailableReplicas = 5\<rparr>"

definition nil_status :: PodSetStatus where
  "nil_status = \<lparr>PodNames = None, AvailableReplicas = 0\<rparr>"

definition empty_status :: PodSetStatus where
  "empty_status = \<lparr>PodNames = Some [], AvailableReplicas = 0\<rparr>"

text \<open>Five available pods and two wanted; the status is already the current one.\<close>

definition scale_down_store :: Store where
  "scale_down_store = \<lparr>podsets = [example_podset 2 five_status], pods = five_pods\<rparr>"

text \<open>No pod and three wanted; the PodSet is new, its status never written.\<close>

definition fresh_store :: Store where
  "fresh_store = \<lparr>podsets = [example_podset 3 nil_status], pods = []\<rparr>"

text \<open>One running pod and one wanted, the status not yet written; and a store with no PodSet.\<close>

definition settled_store :: Store where
  "settled_store =
     \<lparr>podsets = [example_podset 1 nil_status], pods = [example_pod ''p1'' PodRunning None]\<rparr>"

definition vacant_store :: Store where
  "vacant_store = \<lparr>podsets = [], pods = []\<rparr>"

section \<open>Properties\<close>

subsection \<open>Shared facts\<close>

lemma available_loop_filter:
  "available_loop available items = available @ filter spec_available items"
  by (induction items arbitrary: available) (auto simp: spec_available_def)

lemma availableNames_loop_map:
  "availableNames_loop availableNames available = availableNames @ map Name available"
  by (induction available arbitrary: availableNames) auto

lemma status_of_eq:
  "status_of items =
     \<lparr>PodNames = Some (map Name (filter spec_available items)),
      AvailableReplicas = word_of_nat (length (filter spec_available items))\<rparr>"
  by (simp add: status_of_def Let_def available_loop_filter availableNames_loop_map)

lemma sint_of_nat_int32:
  "n < 2 ^ 31 \<Longrightarrow> sint (word_of_nat n :: int32) = int n"
  by (simp add: sint_uint unsigned_of_nat take_bit_nat_eq_self signed_take_bit_int_eq_self)

lemmas example_defs = example_pod_def example_podset_def web_key_def web_listOpts_def
  five_pods_def five_status_def nil_status_def empty_status_def
  scale_down_store_def fresh_store_def settled_store_def vacant_store_def
  store_reconciler_def conflict_reconciler_def forbidden_reconciler_def
  unregistered_reconciler_def
  store_Get_def store_List_def store_StatusUpdate_def
  store_Delete_def store_Create_def objectKey_def Matches_def map_le_def
  PodRunning_def PodPending_def PodFailed_def PodSucceeded_def PodUnknown_def

lemmas reconcile_defs = Reconcile_def listOpts_of_def update_and_scale_def scale_def
  scale_up_def status_of_def slice_to_def cap_of_def Let_def word_sless_alt

subsection \<open>The shape of a pass\<close>

lemma delete_loop_Some:
  assumes "delete_loop r dpods s = Some (out, calls, s')"
  shows "\<exists>dpod rest e. dpods = dpod # rest \<and> calls = [CallDelete dpod]
           \<and> Delete r dpod s = (e, s') \<and> out = Return \<lparr>Requeue = (e = None)\<rparr> e"
proof (cases dpods)
  case Nil
  with assms show ?thesis by simp
next
  case (Cons dpod rest)
  obtain e t where d: "Delete r dpod s = (e, t)" by (cases "Delete r dpod s")
  with assms Cons show ?thesis by (cases e) auto
qed

lemma scale_up_cases:
  assumes "scale_up r podSet numAvailable s = (out, calls, s')"
  shows "(calls = [] \<and> s' = s \<and> out \<noteq> Return \<lparr>Requeue = True\<rparr> None)
         \<or> (\<exists>pod e. calls = [CallCreate pod] \<and> Create r pod s = (e, s')
               \<and> out = Return \<lparr>Requeue = (e = None)\<rparr> e)"
proof (cases "numAvailable <s Replicas (PodSet.Spec podSet)")
  case False
  with assms show ?thesis by (auto simp: scale_up_def)
next
  case True
  show ?thesis
  proof (cases "SetControllerReference r podSet (newPodForCR podSet)")
    case (Inl err)
    with True assms show ?thesis by (auto simp: scale_up_def)
  next
    case (Inr pod)
    obtain e t where c: "Create r pod s = (e, t)" by (cases "Create r pod s")
    with True Inr assms show ?thesis by (cases e) (auto simp: scale_up_def)
  qed
qed

lemma scale_cases:
  assumes "scale slack r podSet available s = (out, calls, s')"
  shows "(calls = [] \<and> s' = s \<and> out \<noteq> Return \<lparr>Requeue = True\<rparr> None)
         \<or> (\<exists>pod e. calls = [CallCreate pod] \<and> Create r pod s = (e, s')
               \<and> out = Return \<lparr>Requeue = (e = None)\<rparr> e)
         \<or> (\<exists>pod e. calls = [CallDelete pod] \<and> Delete r pod s = (e, s')
               \<and> out = Return \<lparr>Requeue = (e = None)\<rparr> e)"
proof -
  let ?n = "word_of_nat (length available) :: int32"
  let ?R = "Replicas (PodSet.Spec podSet)"
  show ?thesis
  proof (cases "?R <s ?n")
    case False
    with assms have "scale_up r podSet ?n s = (out, calls, s')"
      by (simp add: scale_def Let_def)
    from scale_up_cases [OF this] show ?thesis by blast
  next
    case True
    show ?thesis
    proof (cases "slice_to slack available (sint (?n - ?R))")
      case None
      with True assms show ?thesis by (auto simp: scale_def Let_def)
    next
      case (Some dpods)
      show ?thesis
      proof (cases "delete_loop r dpods s")
        case None
        with True Some assms have "scale_up r podSet ?n s = (out, calls, s')"
          by (simp add: scale_def Let_def)
        from scale_up_cases [OF this] show ?thesis by blast
      next
        case (Some returned)
        with True \<open>slice_to slack available (sint (?n - ?R)) = Some dpods\<close> assms
        have "delete_loop r dpods s = Some (out, calls, s')"
          by (simp add: scale_def Let_def)
        from delete_loop_Some [OF this] show ?thesis by blast
      qed
    qed
  qed
qed


lemma update_and_scale_same:
  "PodSet.Status podSet = status_of items \<Longrightarrow>
     update_and_scale slack r podSet items s
       = scale slack r podSet (filter spec_available items) s"
  by (simp add: update_and_scale_def Let_def available_loop_filter)

lemma update_and_scale_failed:
  "PodSet.Status podSet \<noteq> status_of items \<Longrightarrow>
   StatusUpdate r (podSet\<lparr>PodSet.Status := status_of items\<rparr>) s = (Some err, s1) \<Longrightarrow>
     update_and_scale slack r podSet items s
       = (Return \<lparr>Requeue = False\<rparr> (Some err),
          [CallStatusUpdate (podSet\<lparr>PodSet.Status := status_of items\<rparr>)], s1)"
  by (simp add: update_and_scale_def Let_def)

lemma update_and_scale_written:
  "PodSet.Status podSet \<noteq> status_of items \<Longrightarrow>
   StatusUpdate r (podSet\<lparr>PodSet.Status := status_of items\<rparr>) s = (None, s1) \<Longrightarrow>
     update_and_scale slack r podSet items s
       = (case scale slack r (podSet\<lparr>PodSet.Status := status_of items\<rparr>)
                 (filter spec_available items) s1 of
            (out, calls, s') \<Rightarrow>
              (out, CallStatusUpdate (podSet\<lparr>PodSet.Status := status_of items\<rparr>) # calls, s'))"
  by (simp add: update_and_scale_def Let_def available_loop_filter)

lemma Reconcile_found:
  "Get r req s = Inr podSet \<Longrightarrow> List r (listOpts_of podSet) s = Inr items \<Longrightarrow>
     Reconcile slack r req s
       = (case update_and_scale slack r podSet items s of
            (out, calls, s') \<Rightarrow> (out, CallGet req # CallList (listOpts_of podSet) # calls, s'))"
  by (simp add: Reconcile_def Let_def)

text \<open>What a pass that fetched and listed does to the store, in three cases.\<close>

lemma update_and_scale_cases:
  assumes "update_and_scale slack r podSet items s = (out, calls, s')"
  shows "(\<exists>err. PodSet.Status podSet \<noteq> status_of items
            \<and> StatusUpdate r (podSet\<lparr>PodSet.Status := status_of items\<rparr>) s = (Some err, s')
            \<and> out = Return \<lparr>Requeue = False\<rparr> (Some err)
            \<and> calls = [CallStatusUpdate (podSet\<lparr>PodSet.Status := status_of items\<rparr>)])
       \<or> (\<exists>s1 calls'. PodSet.Status podSet \<noteq> status_of items
            \<and> StatusUpdate r (podSet\<lparr>PodSet.Status := status_of items\<rparr>) s = (None, s1)
            \<and> scale slack r (podSet\<lparr>PodSet.Status := status_of items\<rparr>)
                  (filter spec_available items) s1 = (out, calls', s')
            \<and> calls = CallStatusUpdate (podSet\<lparr>PodSet.Status := status_of items\<rparr>) # calls')
       \<or> (PodSet.Status podSet = status_of items
            \<and> scale slack r podSet (filter spec_available items) s = (out, calls, s'))"
proof (cases "PodSet.Status podSet = status_of items")
  case True
  with assms show ?thesis by (simp add: update_and_scale_same)
next
  case False
  obtain e s1 where u: "StatusUpdate r (podSet\<lparr>PodSet.Status := status_of items\<rparr>) s = (e, s1)"
    by (cases "StatusUpdate r (podSet\<lparr>PodSet.Status := status_of items\<rparr>) s")
  show ?thesis
  proof (cases e)
    case (Some err)
    with False u assms show ?thesis by (auto simp: update_and_scale_failed)
  next
    case None
    with False u assms show ?thesis
      by (auto simp: update_and_scale_written split: prod.splits)
  qed
qed

lemma created_deleted_single [simp]:
  "created [CallDelete pod] = []" "deleted [CallCreate pod] = []"
  by simp_all



lemma newPodForCR_status [simp]:
  "newPodForCR (podSet\<lparr>PodSet.Status := x\<rparr>) = newPodForCR podSet"
  by (simp add: newPodForCR_def)

lemma listOpts_of_status [simp]:
  "listOpts_of (podSet\<lparr>PodSet.Status := x\<rparr>) = listOpts_of podSet"
  by (simp add: listOpts_of_def)

lemma scale_status_written:
  "scale slack r podSet available s = (out, calls, s') \<Longrightarrow> status_written calls = []"
  by (drule scale_cases) auto

lemma Reconcile_status_written:
  assumes "Reconcile slack r req s = (out, calls, s')"
    and "written \<in> set (status_written calls)"
  shows "\<exists>podSet items. Get r req s = Inr podSet \<and> List r (listOpts_of podSet) s = Inr items
           \<and> written = podSet\<lparr>PodSet.Status := status_of items\<rparr>"
proof (cases "Get r req s")
  case (Inl err)
  with assms show ?thesis by (auto simp: Reconcile_def split: if_splits)
next
  case (Inr podSet)
  show ?thesis
  proof (cases "List r (listOpts_of podSet) s")
    case (Inl err)
    with Inr assms show ?thesis by (auto simp: Reconcile_def Let_def)
  next
    case items: (Inr items)
    from assms(1) Inr items obtain calls0 where
      u: "update_and_scale slack r podSet items s = (out, calls0, s')"
      and c: "calls = CallGet req # CallList (listOpts_of podSet) # calls0"
      by (auto simp: Reconcile_found split: prod.splits)
    from update_and_scale_cases [OF u] assms(2) c
    have "written = podSet\<lparr>PodSet.Status := status_of items\<rparr>"
      by (auto dest: scale_status_written)
    with Inr items show ?thesis by blast
  qed
qed

lemma Reconcile_deletes_at_most_one:
  "length (deleted (fst (snd (Reconcile slack r req s)))) \<le> 1"
proof (cases "Get r req s")
  case (Inl err)
  then show ?thesis by (simp add: Reconcile_def)
next
  case (Inr podSet)
  show ?thesis
  proof (cases "List r (listOpts_of podSet) s")
    case (Inl err)
    with Inr show ?thesis by (simp add: Reconcile_def Let_def)
  next
    case items: (Inr items)
    obtain out calls s' where u: "update_and_scale slack r podSet items s = (out, calls, s')"
      by (cases "update_and_scale slack r podSet items s")
    have "length (deleted calls) \<le> 1"
      using update_and_scale_cases [OF u] scale_cases by fastforce
    with Inr items u show ?thesis by (simp add: Reconcile_found)
  qed
qed

subsection \<open>The reference store and replayed passes\<close>

lemma objectKey_status [simp]:
  "objectKey (p\<lparr>PodSet.Status := x\<rparr>) = objectKey p"
  by (simp add: objectKey_def)

lemma find_map_key:
  assumes "\<And>q. objectKey (f q) = objectKey q"
  shows "find (\<lambda>q. objectKey q = key) (map f qs)
           = map_option f (find (\<lambda>q. objectKey q = key) qs)"
  by (induction qs) (simp_all add: assms)

lemma store_reconciler_laws: "store_laws store_reconciler"
proof -
  have upd: "store_Get key t' = Inr (p\<lparr>PodSet.Status := x\<rparr>)
      \<and> (\<forall>opts. store_List opts t' = store_List opts t)"
    if g: "store_Get key t = Inr p"
      and u: "store_StatusUpdate (p\<lparr>PodSet.Status := x\<rparr>) t = (None, t')"
    for key p x t t'
  proof -
    from g have f: "find (\<lambda>q. objectKey q = key) (podsets t) = Some p"
      by (simp add: store_Get_def split: option.splits)
    then have k: "objectKey p = key"
      by (auto simp: find_Some_iff)
    let ?f = "\<lambda>q. if objectKey q = key then q\<lparr>PodSet.Status := x\<rparr> else q"
    from u f k have t': "t' = t\<lparr>podsets := map ?f (podsets t)\<rparr>"
      by (auto simp: store_StatusUpdate_def)
    have "find (\<lambda>q. objectKey q = key) (map ?f (podsets t))
        = map_option ?f (find (\<lambda>q. objectKey q = key) (podsets t))"
      by (rule find_map_key) simp
    with f k show ?thesis
      by (simp add: t' store_Get_def store_List_def)
  qed
  have cr: "store_Get key t' = store_Get key t" if "store_Create pod t = (e, t')"
    for key pod t e t'
    using that by (auto simp: store_Create_def store_Get_def)
  have de: "store_Get key t' = store_Get key t" if "store_Delete pod t = (e, t')"
    for key pod t e t'
    using that by (auto simp: store_Delete_def store_Get_def split: if_splits)
  show ?thesis
    unfolding store_laws_def store_reconciler_def
    using upd cr de by simp
qed

lemma scale_keeps_Get:
  assumes laws: "store_laws r"
    and sc: "scale slack r podSet available s = (out, calls, s')"
  shows "Get r key s' = Get r key s"
proof -
  from laws have
    cr: "\<And>pod t e t'. Create r pod t = (e, t') \<Longrightarrow> Get r key t' = Get r key t"
    and de: "\<And>pod t e t'. Delete r pod t = (e, t') \<Longrightarrow> Get r key t' = Get r key t"
    unfolding store_laws_def by blast+
  from scale_cases [OF sc] show ?thesis
    using cr de by auto
qed

lemma scale_done:
  assumes "scale slack r podSet available s = (Return \<lparr>Requeue = False\<rparr> None, calls, s')"
  shows "calls = [] \<and> s' = s"
  using scale_cases [OF assms] by auto

lemma scale_up_calls:
  "SetControllerReference r' = SetControllerReference r \<Longrightarrow>
     fst (snd (scale_up r' podSet numAvailable t)) = fst (snd (scale_up r podSet numAvailable s))"
  by (auto simp: scale_up_def Let_def split: sum.splits prod.splits option.splits)

lemma scale_calls:
  assumes own: "SetControllerReference r' = SetControllerReference r"
  shows "fst (snd (scale slack r' podSet available t))
           = fst (snd (scale slack r podSet available s))"
proof -
  let ?n = "word_of_nat (length available) :: int32"
  let ?R = "Replicas (PodSet.Spec podSet)"
  note up = scale_up_calls [OF own, of podSet ?n t s]
  show ?thesis
  proof (cases "?R <s ?n")
    case False
    then show ?thesis using up by (simp add: scale_def Let_def)
  next
    case True
    show ?thesis
    proof (cases "slice_to slack available (sint (?n - ?R))")
      case None
      with True show ?thesis by (simp add: scale_def Let_def)
    next
      case (Some dpods)
      show ?thesis
      proof (cases dpods)
        case Nil
        with True Some show ?thesis using up by (simp add: scale_def Let_def)
      next
        case (Cons dpod rest)
        with True Some show ?thesis
          by (auto simp: scale_def Let_def split: prod.splits option.splits)
      qed
    qed
  qed
qed

lemma state_after_fixed:
  "snd (snd (Reconcile slack r req t)) = t \<Longrightarrow> state_after n slack r req t = t"
  by (induction n) simp_all

lemma writes_of_reads:
  "created (filter is_read calls) = [] \<and> deleted (filter is_read calls) = []
   \<and> status_written (filter is_read calls) = []"
proof (induction calls)
  case Nil
  show ?case by simp
next
  case (Cons c calls)
  then show ?case by (cases c) simp_all
qed

lemma Reconcile_calls_replay:
  assumes g: "Get r' req t = Get r req s"
    and l: "\<forall>opts. List r' opts t = List r opts s"
    and w: "\<forall>obj. fst (StatusUpdate r' obj t) = fst (StatusUpdate r obj s)"
    and own: "SetControllerReference r' = SetControllerReference r"
  shows "fst (snd (Reconcile slack r' req t)) = fst (snd (Reconcile slack r req s))"
proof (cases "Get r req s")
  case (Inl err)
  with g show ?thesis by (simp add: Reconcile_def)
next
  case (Inr podSet)
  show ?thesis
  proof (cases "List r (listOpts_of podSet) s")
    case (Inl err)
    with Inr g l show ?thesis by (simp add: Reconcile_def Let_def)
  next
    case items: (Inr items)
    let ?podSet' = "podSet\<lparr>PodSet.Status := status_of items\<rparr>"
    let ?available = "filter spec_available items"
    have "fst (snd (update_and_scale slack r' podSet items t))
        = fst (snd (update_and_scale slack r podSet items s))"
    proof (cases "PodSet.Status podSet = status_of items")
      case True
      then show ?thesis
        using scale_calls [OF own, of slack podSet ?available t s]
        by (simp add: update_and_scale_same)
    next
      case False
      obtain e s1 where us: "StatusUpdate r ?podSet' s = (e, s1)"
        by (cases "StatusUpdate r ?podSet' s")
      obtain e' t1 where ut: "StatusUpdate r' ?podSet' t = (e', t1)"
        by (cases "StatusUpdate r' ?podSet' t")
      from w us ut have "e' = e" by (metis fst_conv)
      show ?thesis
      proof (cases e)
        case None
        with False us ut \<open>e' = e\<close> show ?thesis
          using scale_calls [OF own, of slack ?podSet' ?available t1 s1]
          by (cases "scale slack r' ?podSet' ?available t1";
              cases "scale slack r ?podSet' ?available s1")
            (simp add: update_and_scale_written)
      next
        case (Some err)
        with False us ut \<open>e' = e\<close> show ?thesis
          by (simp add: update_and_scale_failed)
      qed
    qed
    moreover from g l Inr items have "Get r' req t = Inr podSet"
        "List r' (listOpts_of podSet) t = Inr items" by simp_all
    ultimately show ?thesis using Inr items
      by (cases "update_and_scale slack r' podSet items t";
          cases "update_and_scale slack r podSet items s")
        (simp add: Reconcile_found)
  qed
qed

lemma Reconcile_done_fixed:
  assumes laws: "store_laws r"
    and run: "Reconcile slack r req s = (Return \<lparr>Requeue = False\<rparr> None, calls, s')"
  shows "Reconcile slack r req s' = (Return \<lparr>Requeue = False\<rparr> None, filter is_read calls, s')"
proof (cases "Get r req s")
  case (Inl err)
  with run show ?thesis by (auto simp: Reconcile_def split: if_splits)
next
  case (Inr podSet)
  show ?thesis
  proof (cases "List r (listOpts_of podSet) s")
    case (Inl err)
    with Inr run show ?thesis by (simp add: Reconcile_def Let_def)
  next
    case items: (Inr items)
    let ?podSet' = "podSet\<lparr>PodSet.Status := status_of items\<rparr>"
    let ?done = "Return \<lparr>Requeue = False\<rparr> None"
    from run Inr items obtain calls0 where
      u: "update_and_scale slack r podSet items s = (?done, calls0, s')"
      and c: "calls = CallGet req # CallList (listOpts_of podSet) # calls0"
      by (auto simp: Reconcile_found split: prod.splits)
    from update_and_scale_cases [OF u] consider
        (failed) err where "?done = Return \<lparr>Requeue = False\<rparr> (Some err)"
      | (written) s1 calls' where "PodSet.Status podSet \<noteq> status_of items"
          "StatusUpdate r ?podSet' s = (None, s1)"
          "scale slack r ?podSet' (filter spec_available items) s1 = (?done, calls', s')"
          "calls0 = CallStatusUpdate ?podSet' # calls'"
      | (same) "PodSet.Status podSet = status_of items"
          "scale slack r podSet (filter spec_available items) s = (?done, calls0, s')"
      by blast
    then show ?thesis
    proof cases
      case failed
      then show ?thesis by simp
    next
      case written
      from scale_done [OF written(3)] have e: "calls' = []" "s' = s1" by simp_all
      from laws Inr written(2) have both: "Get r req s1 = Inr ?podSet'
          \<and> (\<forall>opts. List r opts s1 = List r opts s)"
        unfolding store_laws_def by blast
      then have g1: "Get r req s1 = Inr ?podSet'"
        and l1: "List r (listOpts_of ?podSet') s1 = List r (listOpts_of podSet) s"
        by simp_all
      have "update_and_scale slack r ?podSet' items s1 = (?done, [], s1)"
        using written(3) e by (simp add: update_and_scale_same)
      with g1 l1 items show ?thesis
        by (simp add: Reconcile_found c written(4) e)
    next
      case same
      from scale_done [OF same(2)] have e: "calls0 = []" "s' = s" by simp_all
      with run c show ?thesis by simp
    qed
  qed
qed

subsection \<open>The status computed from a listing\<close>

text \<open>
  Claim C3.  For every pod list, the status computed on lines 84 to 104 has
  \<^verbatim>\<open>AvailableReplicas\<close> equal to the number of pods with no deletion marker and phase
  Pending or Running (as the \<^verbatim>\<open>int32\<close> conversion of that number, which reads back as the
  number itself below \<open>2^31\<close>), and \<^verbatim>\<open>PodNames\<close> equal to exactly those pods' names in
  the order of the list.  A pod with a deletion marker does not change the status whatever
  its phase, nor does a pod in phase Failed, Succeeded or Unknown whatever its deletion
  marker; the empty list gives empty names and the count 0, being a value and not an
  error.
\<close>

theorem status_of_counts_available:
  "AvailableReplicas (status_of items) = word_of_nat (length (filter spec_available items))
   \<and> (length (filter spec_available items) < 2 ^ 31 \<longrightarrow>
        sint (AvailableReplicas (status_of items)) = int (length (filter spec_available items)))
   \<and> PodNames (status_of items) = Some (map Name (filter spec_available items))
   \<and> (DeletionTimestamp pod \<noteq> None \<longrightarrow> status_of (xs @ pod # ys) = status_of (xs @ ys))
   \<and> (Phase (Pod.Status pod) \<in> {PodFailed, PodSucceeded, PodUnknown} \<longrightarrow>
        status_of (xs @ pod # ys) = status_of (xs @ ys))
   \<and> status_of [] = \<lparr>PodNames = Some [], AvailableReplicas = 0\<rparr>"
proof -
  have excl: "\<not> spec_available pod \<Longrightarrow> status_of (xs @ pod # ys) = status_of (xs @ ys)"
    by (simp add: status_of_eq)
  have "DeletionTimestamp pod \<noteq> None \<longrightarrow> \<not> spec_available pod"
    by (simp add: spec_available_def)
  moreover have "Phase (Pod.Status pod) \<in> {PodFailed, PodSucceeded, PodUnknown}
      \<longrightarrow> \<not> spec_available pod"
    by (auto simp: spec_available_def PodFailed_def PodSucceeded_def PodUnknown_def
        PodPending_def PodRunning_def)
  ultimately show ?thesis
    using excl by (simp add: status_of_eq sint_of_nat_int32)
qed

theorem status_of_counts_available_witness:
  "length (filter spec_available
      [example_pod ''a'' PodRunning None, example_pod ''d'' PodPending None]) < 2 ^ 31
   \<and> DeletionTimestamp (example_pod ''b'' PodRunning (Some 7)) \<noteq> None
   \<and> Phase (Pod.Status (example_pod ''c'' PodFailed None))
        \<in> {PodFailed, PodSucceeded, PodUnknown}
   \<and> sint (AvailableReplicas (status_of
        [example_pod ''a'' PodRunning None, example_pod ''d'' PodPending None])) = 2
   \<and> status_of [example_pod ''a'' PodRunning None, example_pod ''b'' PodRunning (Some 7),
        example_pod ''d'' PodPending None]
      = status_of [example_pod ''a'' PodRunning None, example_pod ''d'' PodPending None]
   \<and> status_of [example_pod ''a'' PodRunning None, example_pod ''c'' PodFailed None,
        example_pod ''d'' PodPending None]
      = \<lparr>PodNames = Some [''a'', ''d''], AvailableReplicas = 2\<rparr>"
  using status_of_counts_available
      [of "[example_pod ''a'' PodRunning None, example_pod ''d'' PodPending None]"
        "example_pod ''b'' PodRunning (Some 7)" "[example_pod ''a'' PodRunning None]"
        "[example_pod ''d'' PodPending None]"]
    status_of_counts_available
      [of "[example_pod ''a'' PodRunning None, example_pod ''d'' PodPending None]"
        "example_pod ''c'' PodFailed None" "[example_pod ''a'' PodRunning None]"
        "[example_pod ''d'' PodPending None]"]
  by (simp add: example_defs spec_available_def)

subsection \<open>One kind of action per pass\<close>

text \<open>
  Claim C5.  Whatever the store answers, and so for every pod list and every desired
  count, one pass never both creates a pod and deletes a pod: of the pods created and the
  pods deleted by the calls of a pass, one list is empty.
\<close>

theorem Reconcile_one_kind_of_action:
  "created (fst (snd (Reconcile slack r req s))) = []
   \<or> deleted (fst (snd (Reconcile slack r req s))) = []"
proof (cases "Get r req s")
  case (Inl err)
  then show ?thesis by (simp add: Reconcile_def)
next
  case (Inr podSet)
  show ?thesis
  proof (cases "List r (listOpts_of podSet) s")
    case (Inl err)
    with Inr show ?thesis by (simp add: Reconcile_def Let_def)
  next
    case items: (Inr items)
    obtain out calls s' where u: "update_and_scale slack r podSet items s = (out, calls, s')"
      by (cases "update_and_scale slack r podSet items s")
    have "created calls = [] \<or> deleted calls = []"
      using update_and_scale_cases [OF u] scale_cases by fastforce
    with Inr items u show ?thesis by (simp add: Reconcile_found)
  qed
qed

subsection \<open>A PodSet that is gone\<close>

text \<open>
  Claim C7.  When the fetch answers with a NotFound error, the pass returns an empty result
  and a nil error, its only call is that fetch (no list, create, delete or status update),
  and the store state is the one it started from.
\<close>

theorem Reconcile_not_found:
  assumes "Get r req s = Inl err" and "IsNotFound err"
  shows "Reconcile slack r req s = (Return \<lparr>Requeue = False\<rparr> None, [CallGet req], s)"
  using assms by (simp add: Reconcile_def)

theorem Reconcile_not_found_witness:
  "Get store_reconciler web_key vacant_store = Inl (StatusError ''NotFound'')
   \<and> IsNotFound (StatusError ''NotFound'')
   \<and> Reconcile (\<lambda>n. n) store_reconciler web_key vacant_store
       = (Return \<lparr>Requeue = False\<rparr> None, [CallGet web_key], vacant_store)"
proof -
  have g: "Get store_reconciler web_key vacant_store = Inl (StatusError ''NotFound'')"
    by (simp add: example_defs)
  have n: "IsNotFound (StatusError ''NotFound'')" by simp
  from Reconcile_not_found [OF g n] g n show ?thesis by simp
qed

subsection \<open>Scaling up\<close>




subsection \<open>A status write that fails\<close>

text \<open>
  Claim C2, as the code has it.  When the computed status differs from the fetched one and
  its write fails, the pass returns the error of that write, and the write is its last
  call: no pod is created and none is deleted in that pass.  The claim as stated, that the
  scaling action is still attempted, fails on a new PodSet wanting three pods, none
  listed, whose status write is refused.
\<close>

theorem Reconcile_status_write_fails:
  assumes "Get r req s = Inr podSet"
    and "List r (listOpts_of podSet) s = Inr items"
    and "PodSet.Status podSet \<noteq> status_of items"
    and "StatusUpdate r (podSet\<lparr>PodSet.Status := status_of items\<rparr>) s = (Some err, s')"
  shows "Reconcile slack r req s
     = (Return \<lparr>Requeue = False\<rparr> (Some err),
        [CallGet req, CallList (listOpts_of podSet),
         CallStatusUpdate (podSet\<lparr>PodSet.Status := status_of items\<rparr>)], s')"
  using assms by (simp add: Reconcile_found update_and_scale_failed)

theorem Reconcile_status_write_fails_counterexample:
  "Get conflict_reconciler web_key fresh_store = Inr (example_podset 3 nil_status)
   \<and> List conflict_reconciler web_listOpts fresh_store = Inr []
   \<and> fst (Reconcile (\<lambda>n. n) conflict_reconciler web_key fresh_store)
       = Return \<lparr>Requeue = False\<rparr> (Some (StatusError ''Conflict''))
   \<and> fst (snd (Reconcile (\<lambda>n. n) conflict_reconciler web_key fresh_store))
       = [CallGet web_key, CallList web_listOpts,
          CallStatusUpdate (example_podset 3 empty_status)]
   \<and> created (fst (snd (Reconcile (\<lambda>n. n) conflict_reconciler web_key fresh_store))) = []
   \<and> deleted (fst (snd (Reconcile (\<lambda>n. n) conflict_reconciler web_key fresh_store))) = []"
  by (simp add: example_defs reconcile_defs)

theorem Reconcile_status_write_fails_witness:
  "Get conflict_reconciler web_key fresh_store = Inr (example_podset 3 nil_status)
   \<and> List conflict_reconciler (listOpts_of (example_podset 3 nil_status)) fresh_store = Inr []
   \<and> PodSet.Status (example_podset 3 nil_status) \<noteq> status_of []
   \<and> StatusUpdate conflict_reconciler
        ((example_podset 3 nil_status)\<lparr>PodSet.Status := status_of []\<rparr>) fresh_store
       = (Some (StatusError ''Conflict''), fresh_store)
   \<and> Reconcile (\<lambda>n. n) conflict_reconciler web_key fresh_store
       = (Return \<lparr>Requeue = False\<rparr> (Some (StatusError ''Conflict'')),
          [CallGet web_key, CallList web_listOpts,
           CallStatusUpdate (example_podset 3 empty_status)], fresh_store)"
proof -
  let ?p = "example_podset 3 nil_status"
  have get: "Get conflict_reconciler web_key fresh_store = Inr ?p"
    by (simp add: example_defs)
  have list: "List conflict_reconciler (listOpts_of ?p) fresh_store = Inr []"
    by (simp add: example_defs listOpts_of_def)
  have differs: "PodSet.Status ?p \<noteq> status_of []"
    by (simp add: example_defs status_of_def)
  have upd: "StatusUpdate conflict_reconciler (?p\<lparr>PodSet.Status := status_of []\<rparr>) fresh_store
      = (Some (StatusError ''Conflict''), fresh_store)"
    by (simp add: conflict_reconciler_def)
  have names: "listOpts_of ?p = web_listOpts"
      "?p\<lparr>PodSet.Status := status_of []\<rparr> = example_podset 3 empty_status"
    by (simp_all add: example_defs listOpts_of_def status_of_def)
  from Reconcile_status_write_fails [OF get list differs upd, of "\<lambda>n. n"] get list differs upd names
  show ?thesis by simp
qed

subsection \<open>The status that is written\<close>

text \<open>
  Claim C10.  Every PodSet that a pass hands to the status write has a non-nil
  \<^verbatim>\<open>PodNames\<close> whose length is \<^verbatim>\<open>AvailableReplicas\<close> (as its \<^verbatim>\<open>int32\<close> conversion, which
  reads back as the length itself below \<open>2^31\<close>), and those names are the names of the
  listed pods counted as available, in the order of the listing.
\<close>

theorem written_status_consistent:
  assumes "Reconcile slack r req s = (out, calls, s')"
    and "written \<in> set (status_written calls)"
  shows "\<exists>names. PodNames (PodSet.Status written) = Some names
     \<and> AvailableReplicas (PodSet.Status written) = word_of_nat (length names)
     \<and> (length names < 2 ^ 31 \<longrightarrow>
          sint (AvailableReplicas (PodSet.Status written)) = int (length names))
     \<and> (\<exists>items. List r (listOpts_of written) s = Inr items
          \<and> names = map Name (filter spec_available items))"
proof -
  from Reconcile_status_written [OF assms] obtain podSet items where
    l: "List r (listOpts_of podSet) s = Inr items"
    and w: "written = podSet\<lparr>PodSet.Status := status_of items\<rparr>"
    by blast
  show ?thesis
    unfolding w using l by (simp add: status_of_eq sint_of_nat_int32)
qed

theorem written_status_consistent_witness:
  "Reconcile (\<lambda>n. n) store_reconciler web_key settled_store
     = (Return \<lparr>Requeue = False\<rparr> None,
        [CallGet web_key, CallList web_listOpts,
         CallStatusUpdate (example_podset 1 \<lparr>PodNames = Some [''p1''], AvailableReplicas = 1\<rparr>)],
        \<lparr>podsets = [example_podset 1 \<lparr>PodNames = Some [''p1''], AvailableReplicas = 1\<rparr>],
         pods = [example_pod ''p1'' PodRunning None]\<rparr>)
   \<and> example_podset 1 \<lparr>PodNames = Some [''p1''], AvailableReplicas = 1\<rparr>
       \<in> set (status_written [CallGet web_key, CallList web_listOpts,
         CallStatusUpdate (example_podset 1 \<lparr>PodNames = Some [''p1''], AvailableReplicas = 1\<rparr>)])
   \<and> (\<exists>names. PodNames (PodSet.Status (example_podset 1 \<lparr>PodNames = Some [''p1''], AvailableReplicas = 1\<rparr>)) = Some names
        \<and> length names < 2 ^ 31
        \<and> sint (AvailableReplicas (PodSet.Status (example_podset 1 \<lparr>PodNames = Some [''p1''], AvailableReplicas = 1\<rparr>))) = int (length names))"
proof -
  let ?w = "example_podset 1 \<lparr>PodNames = Some [''p1''], AvailableReplicas = 1\<rparr>"
  have run: "Reconcile (\<lambda>n. n) store_reconciler web_key settled_store
     = (Return \<lparr>Requeue = False\<rparr> None,
        [CallGet web_key, CallList web_listOpts, CallStatusUpdate ?w],
        \<lparr>podsets = [?w], pods = [example_pod ''p1'' PodRunning None]\<rparr>)"
    by (simp add: example_defs reconcile_defs)
  have mem: "?w \<in> set (status_written [CallGet web_key, CallList web_listOpts, CallStatusUpdate ?w])"
    by simp
  from written_status_consistent [OF run mem] run mem show ?thesis
    by (simp add: example_podset_def)
qed

subsection \<open>The pod factory\<close>

text \<open>
  Claim C9.  \<^verbatim>\<open>newPodForCR\<close> depends on its owner only through name and namespace; the pod
  it builds carries exactly the labels \<open>app\<close>, with the owner's name, and \<open>version\<close>, with
  \<open>v0.1\<close>, lies in the owner's namespace, and has the owner's name followed by \<open>-pod\<close>
  as \<^verbatim>\<open>GenerateName\<close>, its name being left to the store.  The listing of a pass for that
  owner uses the same namespace and the same label set as its selector, and no other
  listing is made, so the selector matches every pod the factory builds.
\<close>

theorem newPodForCR_matches_listing:
  "(Name a = Name b \<and> Namespace a = Namespace b \<longrightarrow> newPodForCR a = newPodForCR b)
   \<and> Labels (newPodForCR cr) = [''app'' \<mapsto> Name cr, ''version'' \<mapsto> ''v0.1'']
   \<and> Namespace (newPodForCR cr) = Namespace cr
   \<and> GenerateName (newPodForCR cr) = Name cr @ ''-pod''
   \<and> Name (newPodForCR cr) = []
   \<and> LabelSelector (listOpts_of cr) = Labels (newPodForCR cr)
   \<and> ListOptions.Namespace (listOpts_of cr) = Namespace (newPodForCR cr)
   \<and> Matches (LabelSelector (listOpts_of cr)) (Labels (newPodForCR cr))
   \<and> (Get r req s = Inr cr \<and> CallList opts \<in> set (fst (snd (Reconcile slack r req s)))
        \<longrightarrow> opts = listOpts_of cr)"
proof -
  have "Get r req s = Inr cr \<Longrightarrow> CallList opts \<in> set (fst (snd (Reconcile slack r req s)))
      \<Longrightarrow> opts = listOpts_of cr"
  proof -
    assume g: "Get r req s = Inr cr"
      and m: "CallList opts \<in> set (fst (snd (Reconcile slack r req s)))"
    show "opts = listOpts_of cr"
    proof (cases "List r (listOpts_of cr) s")
      case (Inl err)
      with g m show ?thesis by (auto simp: Reconcile_def Let_def)
    next
      case (Inr items)
      obtain out calls s' where u: "update_and_scale slack r cr items s = (out, calls, s')"
        by (cases "update_and_scale slack r cr items s")
      have "CallList opts \<notin> set calls"
        using update_and_scale_cases [OF u] scale_cases by fastforce
      with g m Inr u show ?thesis by (auto simp: Reconcile_found)
    qed
  qed
  then show ?thesis
    by (auto simp: newPodForCR_def listOpts_of_def Matches_def)
qed

theorem newPodForCR_matches_listing_witness:
  "Name (example_podset 3 nil_status) = Name (example_podset 1 empty_status)
   \<and> Namespace (example_podset 3 nil_status) = Namespace (example_podset 1 empty_status)
   \<and> newPodForCR (example_podset 3 nil_status) = newPodForCR (example_podset 1 empty_status)
   \<and> Get store_reconciler web_key fresh_store = Inr (example_podset 3 nil_status)
   \<and> CallList web_listOpts \<in> set (fst (snd (Reconcile (\<lambda>n. n) store_reconciler web_key fresh_store)))
   \<and> web_listOpts = listOpts_of (example_podset 3 nil_status)
   \<and> Matches (LabelSelector web_listOpts) (Labels (newPodForCR (example_podset 3 nil_status)))"
proof -
  have g: "Get store_reconciler web_key fresh_store = Inr (example_podset 3 nil_status)"
    by (simp add: example_defs)
  have m: "CallList web_listOpts
      \<in> set (fst (snd (Reconcile (\<lambda>n. n) store_reconciler web_key fresh_store)))"
    by (simp add: example_defs reconcile_defs newPodForCR_def)
  have n: "Name (example_podset 3 nil_status) = Name (example_podset 1 empty_status)"
      "Namespace (example_podset 3 nil_status) = Namespace (example_podset 1 empty_status)"
    by (simp_all add: example_podset_def)
  from newPodForCR_matches_listing [where a = "example_podset 3 nil_status"
      and b = "example_podset 1 empty_status" and cr = "example_podset 3 nil_status"
      and r = store_reconciler and req = web_key and s = fresh_store and opts = web_listOpts
      and slack = "\<lambda>n. n"]
    g m n
  show ?thesis by (simp add: example_defs listOpts_of_def newPodForCR_def)
qed

subsection \<open>The persisted status after a pass\<close>

text \<open>
  Claim C4.  Over a store that keeps what is written to it, after every pass that fetched
  the PodSet, listed its pods and returned a nil error, the PodSet the store holds under
  the reconciled key has the status computed from that listing: its \<^verbatim>\<open>AvailableReplicas\<close>
  is the number of listed pods with phase Pending or Running and no deletion marker (as
  its \<^verbatim>\<open>int32\<close> conversion, which reads back as the number itself below \<open>2^31\<close>).
\<close>

theorem status_after_pass:
  assumes laws: "store_laws r"
    and get: "Get r req s = Inr podSet"
    and list: "List r (listOpts_of podSet) s = Inr items"
    and run: "Reconcile slack r req s = (Return res None, calls, s')"
  shows "\<exists>stored. Get r req s' = Inr stored
     \<and> PodSet.Status stored = status_of items
     \<and> AvailableReplicas (PodSet.Status stored)
          = word_of_nat (length (filter spec_available items))
     \<and> (length (filter spec_available items) < 2 ^ 31 \<longrightarrow>
          sint (AvailableReplicas (PodSet.Status stored))
            = int (length (filter spec_available items)))"
proof -
  let ?podSet' = "podSet\<lparr>PodSet.Status := status_of items\<rparr>"
  from run get list obtain calls0 where
    u: "update_and_scale slack r podSet items s = (Return res None, calls0, s')"
    by (auto simp: Reconcile_found split: prod.splits)
  from update_and_scale_cases [OF u] consider
      (failed) err where "Return res None = Return \<lparr>Requeue = False\<rparr> (Some err)"
    | (written) s1 calls' where "StatusUpdate r ?podSet' s = (None, s1)"
        "scale slack r ?podSet' (filter spec_available items) s1 = (Return res None, calls', s')"
    | (same) "PodSet.Status podSet = status_of items"
        "scale slack r podSet (filter spec_available items) s = (Return res None, calls0, s')"
    by blast
  then have "Get r req s' = Inr ?podSet'"
  proof cases
    case failed
    then show ?thesis by simp
  next
    case written
    from laws get written(1) have "Get r req s1 = Inr ?podSet'"
      unfolding store_laws_def by blast
    with scale_keeps_Get [OF laws written(2)] show ?thesis by simp
  next
    case same
    from same(1) have "?podSet' = podSet" by simp
    with scale_keeps_Get [OF laws same(2)] get show ?thesis by simp
  qed
  then show ?thesis
    by (simp add: status_of_eq sint_of_nat_int32)
qed


theorem status_after_pass_witness:
  "store_laws store_reconciler
   \<and> Get store_reconciler web_key settled_store = Inr (example_podset 1 nil_status)
   \<and> List store_reconciler (listOpts_of (example_podset 1 nil_status)) settled_store
       = Inr [example_pod ''p1'' PodRunning None]
   \<and> Reconcile (\<lambda>n. n) store_reconciler web_key settled_store
       = (Return \<lparr>Requeue = False\<rparr> None,
          [CallGet web_key, CallList web_listOpts,
           CallStatusUpdate
             (example_podset 1 \<lparr>PodNames = Some [''p1''], AvailableReplicas = 1\<rparr>)],
          \<lparr>podsets = [example_podset 1 \<lparr>PodNames = Some [''p1''], AvailableReplicas = 1\<rparr>],
           pods = [example_pod ''p1'' PodRunning None]\<rparr>)
   \<and> length (filter spec_available [example_pod ''p1'' PodRunning None]) < 2 ^ 31
   \<and> (\<exists>stored.
         Get store_reconciler web_key
           \<lparr>podsets = [example_podset 1 \<lparr>PodNames = Some [''p1''], AvailableReplicas = 1\<rparr>],
            pods = [example_pod ''p1'' PodRunning None]\<rparr> = Inr stored
         \<and> sint (AvailableReplicas (PodSet.Status stored))
             = int (length (filter spec_available [example_pod ''p1'' PodRunning None])))"
proof -
  let ?p = "example_podset 1 nil_status"
  let ?w = "example_podset 1 \<lparr>PodNames = Some [''p1''], AvailableReplicas = 1\<rparr>"
  have get: "Get store_reconciler web_key settled_store = Inr ?p"
    by (simp add: example_defs)
  have list: "List store_reconciler (listOpts_of ?p) settled_store
      = Inr [example_pod ''p1'' PodRunning None]"
    by (simp add: example_defs listOpts_of_def)
  have run: "Reconcile (\<lambda>n. n) store_reconciler web_key settled_store
     = (Return \<lparr>Requeue = False\<rparr> None,
        [CallGet web_key, CallList web_listOpts, CallStatusUpdate ?w],
        \<lparr>podsets = [?w], pods = [example_pod ''p1'' PodRunning None]\<rparr>)"
    by (simp add: example_defs reconcile_defs)
  have small: "length (filter spec_available [example_pod ''p1'' PodRunning None]) < 2 ^ 31"
    by simp
  from status_after_pass [OF store_reconciler_laws get list run]
    store_reconciler_laws get list run small
  show ?thesis by auto
qed

subsection \<open>Replaying a pass\<close>

text \<open>
  Claim C8.  A pass is level-triggered: two passes that are given the same answer to the
  fetch, the same answers to the listing and the same verdicts on the status write, with
  the same owner references, make the same calls.  And it is idempotent: over a store that
  keeps what is written to it, once a pass has returned an empty result with a nil error,
  every later pass on the store as that pass left it returns the same, makes only the
  reads of the first one (no create, no delete, no status update) and leaves the store
  unchanged.
\<close>

theorem Reconcile_idempotent:
  "(Get r' req t = Get r req s \<and> (\<forall>opts. List r' opts t = List r opts s)
      \<and> (\<forall>obj. fst (StatusUpdate r' obj t) = fst (StatusUpdate r obj s))
      \<and> SetControllerReference r' = SetControllerReference r
     \<longrightarrow> fst (snd (Reconcile slack r' req t)) = fst (snd (Reconcile slack r req s)))
   \<and> (store_laws r \<and> Reconcile slack r req s = (Return \<lparr>Requeue = False\<rparr> None, calls, s')
     \<longrightarrow> (\<forall>n. Reconcile slack r req (state_after n slack r req s')
                 = (Return \<lparr>Requeue = False\<rparr> None, filter is_read calls, s'))
         \<and> created (filter is_read calls) = []
         \<and> deleted (filter is_read calls) = []
         \<and> status_written (filter is_read calls) = [])"
proof (intro conjI impI allI)
  assume "Get r' req t = Get r req s \<and> (\<forall>opts. List r' opts t = List r opts s)
      \<and> (\<forall>obj. fst (StatusUpdate r' obj t) = fst (StatusUpdate r obj s))
      \<and> SetControllerReference r' = SetControllerReference r"
  then show "fst (snd (Reconcile slack r' req t)) = fst (snd (Reconcile slack r req s))"
    by (intro Reconcile_calls_replay) simp_all
next
  fix n
  assume "store_laws r \<and> Reconcile slack r req s = (Return \<lparr>Requeue = False\<rparr> None, calls, s')"
  then have laws: "store_laws r"
    and run: "Reconcile slack r req s = (Return \<lparr>Requeue = False\<rparr> None, calls, s')"
    by simp_all
  have fixed: "Reconcile slack r req s'
      = (Return \<lparr>Requeue = False\<rparr> None, filter is_read calls, s')"
    by (rule Reconcile_done_fixed [OF laws run])
  then have "state_after n slack r req s' = s'"
    by (intro state_after_fixed) simp
  with fixed show "Reconcile slack r req (state_after n slack r req s')
      = (Return \<lparr>Requeue = False\<rparr> None, filter is_read calls, s')"
    by simp
qed (simp_all add: writes_of_reads)

theorem Reconcile_idempotent_witness:
  "Get forbidden_reconciler web_key fresh_store = Get store_reconciler web_key fresh_store
   \<and> fst (snd (Reconcile (\<lambda>n. n) forbidden_reconciler web_key fresh_store))
       = fst (snd (Reconcile (\<lambda>n. n) store_reconciler web_key fresh_store))
   \<and> created (fst (snd (Reconcile (\<lambda>n. n) store_reconciler web_key fresh_store)))
       = [newPodForCR (example_podset 3 nil_status)]
   \<and> store_laws store_reconciler
   \<and> Reconcile (\<lambda>n. n) store_reconciler web_key settled_store
       = (Return \<lparr>Requeue = False\<rparr> None,
          [CallGet web_key, CallList web_listOpts,
           CallStatusUpdate
             (example_podset 1 \<lparr>PodNames = Some [''p1''], AvailableReplicas = 1\<rparr>)],
          \<lparr>podsets = [example_podset 1 \<lparr>PodNames = Some [''p1''], AvailableReplicas = 1\<rparr>],
           pods = [example_pod ''p1'' PodRunning None]\<rparr>)
   \<and> Reconcile (\<lambda>n. n) store_reconciler web_key
        (state_after 2 (\<lambda>n. n) store_reconciler web_key
          \<lparr>podsets = [example_podset 1 \<lparr>PodNames = Some [''p1''], AvailableReplicas = 1\<rparr>],
           pods = [example_pod ''p1'' PodRunning None]\<rparr>)
       = (Return \<lparr>Requeue = False\<rparr> None, [CallGet web_key, CallList web_listOpts],
          \<lparr>podsets = [example_podset 1 \<lparr>PodNames = Some [''p1''], AvailableReplicas = 1\<rparr>],
           pods = [example_pod ''p1'' PodRunning None]\<rparr>)"
proof -
  let ?w = "example_podset 1 \<lparr>PodNames = Some [''p1''], AvailableReplicas = 1\<rparr>"
  let ?s' = "\<lparr>podsets = [?w], pods = [example_pod ''p1'' PodRunning None]\<rparr>"
  have same: "Get forbidden_reconciler web_key fresh_store = Get store_reconciler web_key fresh_store
      \<and> (\<forall>opts. List forbidden_reconciler opts fresh_store = List store_reconciler opts fresh_store)
      \<and> (\<forall>obj. fst (StatusUpdate forbidden_reconciler obj fresh_store)
            = fst (StatusUpdate store_reconciler obj fresh_store))
      \<and> SetControllerReference forbidden_reconciler = SetControllerReference store_reconciler"
    by (simp add: forbidden_reconciler_def)
  have one: "created (fst (snd (Reconcile (\<lambda>n. n) store_reconciler web_key fresh_store)))
       = [newPodForCR (example_podset 3 nil_status)]"
    by (simp add: example_defs reconcile_defs newPodForCR_def)
  have run: "Reconcile (\<lambda>n. n) store_reconciler web_key settled_store
     = (Return \<lparr>Requeue = False\<rparr> None,
        [CallGet web_key, CallList web_listOpts, CallStatusUpdate ?w], ?s')"
    by (simp add: example_defs reconcile_defs)
  note inst = Reconcile_idempotent [where r' = forbidden_reconciler and t = fresh_store
      and r = store_reconciler and req = web_key and slack = "\<lambda>n. n"]
  from inst [where s = fresh_store and calls = "[]" and s' = fresh_store] same
  have replay: "fst (snd (Reconcile (\<lambda>n. n) forbidden_reconciler web_key fresh_store))
       = fst (snd (Reconcile (\<lambda>n. n) store_reconciler web_key fresh_store))"
    by blast
  from inst [where s = settled_store
      and calls = "[CallGet web_key, CallList web_listOpts, CallStatusUpdate ?w]" and s' = ?s']
    store_reconciler_laws run
  have "\<forall>n. Reconcile (\<lambda>n. n) store_reconciler web_key
        (state_after n (\<lambda>n. n) store_reconciler web_key ?s')
      = (Return \<lparr>Requeue = False\<rparr> None,
         filter is_read [CallGet web_key, CallList web_listOpts, CallStatusUpdate ?w], ?s')"
    by blast
  then have again: "Reconcile (\<lambda>n. n) store_reconciler web_key
        (state_after 2 (\<lambda>n. n) store_reconciler web_key ?s')
      = (Return \<lparr>Requeue = False\<rparr> None, [CallGet web_key, CallList web_listOpts], ?s')"
    by simp
  from same replay one store_reconciler_laws run again show ?thesis by simp
qed

subsection \<open>Scaling down\<close>

text \<open>
  Claim C1, at five available pods and two wanted.  The claim has the pass delete the
  three pods \<open>p1\<close>, \<open>p2\<close>, \<open>p3\<close>, the whole excess.  The pass deletes \<open>p1\<close> alone and
  returns a requeue: the \<^verbatim>\<open>return\<close> of line 125 sits inside the loop over the selected
  pods, so the loop body runs once.  Whatever capacity the runtime gave the slice, four
  pods are left in the store.
\<close>

theorem scale_down_deletes_first_only:
  "store_List web_listOpts scale_down_store = Inr five_pods
   \<and> length (filter spec_available five_pods) = 5
   \<and> store_Get web_key scale_down_store = Inr (example_podset 2 five_status)
   \<and> Reconcile slack store_reconciler web_key scale_down_store
       = (Return \<lparr>Requeue = True\<rparr> None,
          [CallGet web_key, CallList web_listOpts,
           CallDelete (example_pod ''p1'' PodRunning None)],
          \<lparr>podsets = [example_podset 2 five_status],
           pods = [example_pod ''p2'' PodRunning None, example_pod ''p3'' PodPending None,
                   example_pod ''p4'' PodRunning None, example_pod ''p5'' PodRunning None]\<rparr>)"
  by (simp add: example_defs reconcile_defs spec_available_def)

end
